theory Spec2Isabelle
  imports Main
begin

section \<open>Data model of the checkpoint dispatcher (ckpt.py)\<close>

text \<open>
  The thrift structures \<open>ProcessState\<close>, \<open>ProcessHistory\<close>, \<open>TaskRunnerState\<close> and
  \<open>TaskRunnerCkpt\<close> are generated classes: every attribute is either a value or
  \<open>None\<close>, so every attribute the dispatcher tests against \<open>None\<close> is an option here.
  Times are thrift doubles that the dispatcher only copies; they are kept opaque.
\<close>

type_synonym timestamp = int

text \<open>
  The seven run states of the source, and \<open>UNKNOWN_RUN_STATE n\<close> for an integer that is
  none of them (the enum is an integer in Python, and the source has a branch for it).
\<close>

datatype ProcessRunState =
  WAITING | FORKED | RUNNING | FINISHED | KILLED | FAILED | LOST | UNKNOWN_RUN_STATE int

text \<open>
  Modelled from the spec: the members of the task-level enum other than \<open>ACTIVE\<close>
  (the generated module \<open>gen.twitter.thermos.ttypes\<close> is not part of the source); the
  same type stands for the history-level enum, which the source compares with it.
\<close>

datatype TaskState = ACTIVE | SUCCESS | TASK_FAILED

record ProcessState =
  seq :: "int option"
  process :: "string option"
  run_state :: "ProcessRunState option"
  fork_time :: "timestamp option"
  runner_pid :: "int option"
  start_time :: "timestamp option"
  pid :: "int option"
  stop_time :: "timestamp option"
  return_code :: "int option"

record ProcessHistory =
  hist_process :: "string option"
  runs :: "ProcessState list"
  hist_state :: "TaskState option"

datatype RunnerHeader = RunnerHeader string

record TaskRunnerState =
  header :: "RunnerHeader option"
  ports :: "(string \<rightharpoonup> int) option"
  processes :: "string option \<rightharpoonup> ProcessHistory"
  task_state :: "TaskState option"

record AllocatedPort =
  port :: int
  port_name :: string

record TaskStateUpdate =
  update_state :: TaskState

record TaskRunStateUpdate =
  update_process :: "string option"
  update_history_state :: TaskState

record TaskRunnerCkpt =
  runner_header :: "RunnerHeader option"
  allocated_port :: "AllocatedPort option"
  state_update :: "TaskStateUpdate option"
  history_state_update :: "TaskRunStateUpdate option"
  process_state :: "ProcessState option"

subsection \<open>Errors\<close>

text \<open>
  The attribute names the source passes as strings to the field helpers.
\<close>

datatype field =
  F_seq | F_process | F_run_state | F_fork_time | F_runner_pid
  | F_start_time | F_pid | F_stop_time | F_return_code

text \<open>
  What the message of an \<open>ErrorRecoveringState\<close> says.
\<close>

datatype reason =
  RebindHeader
  | PortConflict string
  | FieldNotEmpty field
  | MissingField field
  | UnknownRunState
  | TwoConsecutiveTerminal "string option"

text \<open>
  The three exception classes of the dispatcher, and the built-in exceptions that the
  dictionary, list and arithmetic operations of the source raise.
\<close>

datatype error =
  ErrorRecoveringState reason
  | InvalidStateTransition
  | InvalidSequenceNumber
  | KeyError
  | IndexError
  | TypeError

text \<open>\<open>except TaskCkptDispatcher.Error\<close> catches exactly the three subclasses.\<close>

fun is_dispatcher_error :: "error \<Rightarrow> bool" where
  "is_dispatcher_error (ErrorRecoveringState r) = True"
| "is_dispatcher_error InvalidStateTransition = True"
| "is_dispatcher_error InvalidSequenceNumber = True"
| "is_dispatcher_error KeyError = False"
| "is_dispatcher_error IndexError = False"
| "is_dispatcher_error TypeError = False"

subsection \<open>Handlers\<close>

text \<open>
  A handler is a callback the dispatcher calls and whose result it ignores. It is
  identified by a number, and a call is recorded with its arguments; the list of calls,
  in order, is what a run of the dispatcher did to its observers. Handlers are taken to
  return normally and to leave the state alone.
\<close>

type_synonym handler = nat

datatype call =
  StateCall handler ProcessState
  | PortCall handler string int

record TaskCkptDispatcher =
  state_handlers :: "ProcessRunState option \<rightharpoonup> handler list"
  universal_handlers :: "handler list"
  port_handlers :: "handler list"

definition init :: TaskCkptDispatcher where
  "init = \<lparr>state_handlers = Map.empty, universal_handlers = [], port_handlers = []\<rparr>"

definition register_state_handler ::
  "TaskCkptDispatcher \<Rightarrow> ProcessRunState option \<Rightarrow> handler \<Rightarrow> TaskCkptDispatcher" where
  "register_state_handler d rs f =
     (let hs = (case state_handlers d rs of None \<Rightarrow> [] | Some l \<Rightarrow> l)
      in d\<lparr>state_handlers := (state_handlers d)(rs \<mapsto> hs @ [f])\<rparr>)"

definition register_port_handler :: "TaskCkptDispatcher \<Rightarrow> handler \<Rightarrow> TaskCkptDispatcher" where
  "register_port_handler d f = d\<lparr>port_handlers := port_handlers d @ [f]\<rparr>"

definition register_universal_handler ::
  "TaskCkptDispatcher \<Rightarrow> handler \<Rightarrow> TaskCkptDispatcher" where
  "register_universal_handler d f = d\<lparr>universal_handlers := universal_handlers d @ [f]\<rparr>"

definition run_state_dispatch ::
  "TaskCkptDispatcher \<Rightarrow> ProcessRunState option \<Rightarrow> ProcessState \<Rightarrow> call list" where
  "run_state_dispatch d st proc_update =
     map (\<lambda>h. StateCall h proc_update) (universal_handlers d)
     @ map (\<lambda>h. StateCall h proc_update)
         (case state_handlers d st of None \<Rightarrow> [] | Some l \<Rightarrow> l)"

definition run_port_dispatch :: "TaskCkptDispatcher \<Rightarrow> string \<Rightarrow> int \<Rightarrow> call list" where
  "run_port_dispatch d name p = map (\<lambda>h. PortCall h name p) (port_handlers d)"

section \<open>The field helpers\<close>

fun field_is_none :: "ProcessState \<Rightarrow> field \<Rightarrow> bool" where
  "field_is_none ps F_seq = (seq ps = None)"
| "field_is_none ps F_process = (process ps = None)"
| "field_is_none ps F_run_state = (run_state ps = None)"
| "field_is_none ps F_fork_time = (fork_time ps = None)"
| "field_is_none ps F_runner_pid = (runner_pid ps = None)"
| "field_is_none ps F_start_time = (start_time ps = None)"
| "field_is_none ps F_pid = (pid ps = None)"
| "field_is_none ps F_stop_time = (stop_time ps = None)"
| "field_is_none ps F_return_code = (return_code ps = None)"

text \<open>
  \<open>process_state.__dict__[field] = copy.deepcopy(process_state_update.__dict__[field])\<close>:
  values have no identity here, so the deep copy is the value.
\<close>

fun copy_field :: "ProcessState \<Rightarrow> ProcessState \<Rightarrow> field \<Rightarrow> ProcessState" where
  "copy_field ps upd F_seq = ps\<lparr>seq := seq upd\<rparr>"
| "copy_field ps upd F_process = ps\<lparr>process := process upd\<rparr>"
| "copy_field ps upd F_run_state = ps\<lparr>run_state := run_state upd\<rparr>"
| "copy_field ps upd F_fork_time = ps\<lparr>fork_time := fork_time upd\<rparr>"
| "copy_field ps upd F_runner_pid = ps\<lparr>runner_pid := runner_pid upd\<rparr>"
| "copy_field ps upd F_start_time = ps\<lparr>start_time := start_time upd\<rparr>"
| "copy_field ps upd F_pid = ps\<lparr>pid := pid upd\<rparr>"
| "copy_field ps upd F_stop_time = ps\<lparr>stop_time := stop_time upd\<rparr>"
| "copy_field ps upd F_return_code = ps\<lparr>return_code := return_code upd\<rparr>"

text \<open>The two checks return the error they raise, if any, at the first offending field.\<close>

fun check_empty_fields :: "ProcessState \<Rightarrow> field list \<Rightarrow> error option" where
  "check_empty_fields ps [] = None"
| "check_empty_fields ps (f # fs) =
     (if \<not> field_is_none ps f then Some (ErrorRecoveringState (FieldNotEmpty f))
      else check_empty_fields ps fs)"

fun check_nonempty_fields :: "ProcessState \<Rightarrow> field list \<Rightarrow> error option" where
  "check_nonempty_fields ps [] = None"
| "check_nonempty_fields ps (f # fs) =
     (if field_is_none ps f then Some (ErrorRecoveringState (MissingField f))
      else check_nonempty_fields ps fs)"

fun copy_loop :: "ProcessState \<Rightarrow> ProcessState \<Rightarrow> field list \<Rightarrow> ProcessState" where
  "copy_loop ps upd [] = ps"
| "copy_loop ps upd (f # fs) = copy_loop (copy_field ps upd f) upd fs"

text \<open>
  The helpers mutate \<open>process_state\<close>; they return the error raised, if any, and the
  record as it is when they return or raise.
\<close>

definition check_and_copy_fields ::
  "ProcessState \<Rightarrow> ProcessState \<Rightarrow> field list \<Rightarrow> error option \<times> ProcessState" where
  "check_and_copy_fields ps upd required_fields =
     (case check_empty_fields ps required_fields of
        Some e \<Rightarrow> (Some e, ps)
      | None \<Rightarrow>
         (case check_nonempty_fields upd required_fields of
            Some e \<Rightarrow> (Some e, ps)
          | None \<Rightarrow> (None, copy_loop ps upd required_fields)))"

definition copy_fields ::
  "ProcessState \<Rightarrow> ProcessState \<Rightarrow> field list \<Rightarrow> error option \<times> ProcessState" where
  "copy_fields ps upd required_fields =
     (case check_nonempty_fields upd required_fields of
        Some e \<Rightarrow> (Some e, ps)
      | None \<Rightarrow> (None, copy_loop ps upd required_fields))"

definition TERMINAL_STATES :: "ProcessRunState list" where
  "TERMINAL_STATES = [FINISHED, FAILED, KILLED, LOST]"

definition is_terminal :: "ProcessState \<Rightarrow> bool" where
  "is_terminal ps =
     (case run_state ps of None \<Rightarrow> False | Some r \<Rightarrow> r \<in> set TERMINAL_STATES)"

section \<open>The run-state machine\<close>

text \<open>
  The source is Python 2, where \<open>None\<close> is ordered below every integer:
  \<open>None > 0\<close> is false and \<open>None < 5\<close> is true.
\<close>

fun py_less :: "int option \<Rightarrow> int option \<Rightarrow> bool" where
  "py_less None None = False"
| "py_less None (Some b) = True"
| "py_less (Some a) None = False"
| "py_less (Some a) (Some b) = (a < b)"

definition py_le :: "int option \<Rightarrow> int option \<Rightarrow> bool" where
  "py_le a b = (a = b \<or> py_less a b)"

text \<open>
  One branch of the \<open>if\<close>/\<open>elif\<close> chain on the update's run state: the check of the
  current run state, then \<open>copy_fields\<close> with the branch's \<open>required_fields\<close>.
\<close>

fun transition ::
  "ProcessState \<Rightarrow> ProcessState \<Rightarrow> ProcessRunState \<Rightarrow> error option \<times> ProcessState" where
  "transition ps upd WAITING = copy_fields ps upd [F_seq, F_run_state, F_process]"
| "transition ps upd FORKED =
     (if run_state ps \<noteq> Some WAITING then (Some InvalidStateTransition, ps)
      else copy_fields ps upd [F_seq, F_run_state, F_fork_time, F_runner_pid])"
| "transition ps upd RUNNING =
     (if run_state ps \<noteq> Some FORKED then (Some InvalidStateTransition, ps)
      else copy_fields ps upd [F_seq, F_run_state, F_start_time, F_pid])"
| "transition ps upd FINISHED =
     (if run_state ps \<noteq> Some RUNNING then (Some InvalidStateTransition, ps)
      else copy_fields ps upd [F_seq, F_run_state, F_stop_time, F_return_code])"
| "transition ps upd FAILED =
     (if run_state ps \<noteq> Some RUNNING then (Some InvalidStateTransition, ps)
      else copy_fields ps upd [F_seq, F_run_state, F_stop_time, F_return_code])"
| "transition ps upd KILLED =
     (if run_state ps \<notin> {Some FORKED, Some RUNNING} then (Some InvalidStateTransition, ps)
      else copy_fields ps upd [F_seq, F_run_state, F_stop_time])"
| "transition ps upd LOST =
     (if run_state ps \<notin> {Some FORKED, Some RUNNING} then (Some InvalidStateTransition, ps)
      else copy_fields ps upd [F_seq, F_run_state])"
| "transition ps upd (UNKNOWN_RUN_STATE n) =
     (Some (ErrorRecoveringState UnknownRunState), ps)"

text \<open>
  \<open>update_task_state\<close> returns what it raises (\<open>Inl\<close>) or returns (\<open>Inr\<close>), the
  process state as it leaves it, and the handler calls it made. The warning about
  non-contiguous sequence numbers only logs.
\<close>

definition update_task_state ::
  "TaskCkptDispatcher \<Rightarrow> ProcessState \<Rightarrow> ProcessState \<Rightarrow> bool
     \<Rightarrow> (error + bool) \<times> ProcessState \<times> call list" where
  "update_task_state d ps upd recovery =
     (if seq upd = None then (Inl InvalidSequenceNumber, ps, [])
      else if py_less (Some 0) (seq ps) \<and> py_le (seq upd) (seq ps) then
        (if recovery then (Inr False, ps, []) else (Inl InvalidSequenceNumber, ps, []))
      else if run_state upd \<noteq> None \<and> run_state ps = run_state upd then
        (Inl InvalidStateTransition, ps, [])
      else
        (case run_state upd of
           None \<Rightarrow> (Inr True, ps, run_state_dispatch d None upd)
         | Some r \<Rightarrow>
            (case transition ps upd r of
               (Some e, ps') \<Rightarrow> (Inl e, ps', [])
             | (None, ps') \<Rightarrow> (Inr True, ps', run_state_dispatch d (Some r) upd))))"

section \<open>The dispatcher\<close>

definition would_update ::
  "TaskCkptDispatcher \<Rightarrow> TaskRunnerState \<Rightarrow> TaskRunnerCkpt \<Rightarrow> (error + bool) \<times> TaskRunnerState" where
  "would_update d s runner_ckpt =
     (case process_state runner_ckpt of
        None \<Rightarrow> (Inr False, s)
      | Some proc_update \<Rightarrow>
         (case processes s (process proc_update) of
            None \<Rightarrow> (Inr True, s)
          | Some task_process \<Rightarrow>
             (if runs task_process = [] then (Inl IndexError, s)
              else (Inr (py_less (seq (last (runs task_process))) (seq proc_update)), s))))"

text \<open>
  The run that \<open>transition_to_waiting\<close> creates and appends, and the update it forges
  from it.
\<close>

definition new_process_state :: "string option \<Rightarrow> int option \<Rightarrow> ProcessState" where
  "new_process_state p n =
     \<lparr>seq = n, process = p, run_state = None, fork_time = None, runner_pid = None,
      start_time = None, pid = None, stop_time = None, return_code = None\<rparr>"

definition transition_to_waiting ::
  "string option \<Rightarrow> ProcessHistory \<Rightarrow> int option
     \<Rightarrow> ProcessState \<times> ProcessState \<times> ProcessHistory" where
  "transition_to_waiting p process_history n =
     (let ps = new_process_state p n;
          proc_update = ps\<lparr>run_state := Some WAITING\<rparr>
      in (ps, proc_update, process_history\<lparr>runs := runs process_history @ [ps]\<rparr>))"

text \<open>
  The last step of \<open>update_runner_state\<close>: the state machine runs on the tail run of
  the history of \<open>p\<close>, which it mutates in place; the history is in the state already.
\<close>

definition run_state_machine ::
  "TaskCkptDispatcher \<Rightarrow> TaskRunnerState \<Rightarrow> string option \<Rightarrow> ProcessHistory
     \<Rightarrow> ProcessState \<Rightarrow> ProcessState \<Rightarrow> bool
     \<Rightarrow> (error + bool) \<times> TaskRunnerState \<times> call list" where
  "run_state_machine d s p process_history ps proc_update recovery =
     (case update_task_state d ps proc_update recovery of
        (res, ps', calls) \<Rightarrow>
          (res,
           s\<lparr>processes := (processes s)
               (p \<mapsto> process_history\<lparr>runs := butlast (runs process_history) @ [ps']\<rparr>)\<rparr>,
           calls))"

definition update_runner_state ::
  "TaskCkptDispatcher \<Rightarrow> TaskRunnerState \<Rightarrow> TaskRunnerCkpt \<Rightarrow> bool
     \<Rightarrow> (error + bool) \<times> TaskRunnerState \<times> call list" where
  "update_runner_state d s runner_ckpt recovery =
     (case runner_header runner_ckpt of
        Some h \<Rightarrow>
          (if header s \<noteq> None then (Inl (ErrorRecoveringState RebindHeader), s, [])
           else (Inr True, s\<lparr>header := Some h\<rparr>, []))
      | None \<Rightarrow>
     (case allocated_port runner_ckpt of
        Some ap \<Rightarrow>
          (let s1 = (if ports s = None then s\<lparr>ports := Some Map.empty\<rparr> else s);
               m = the (ports s1)
           in (case m (port_name ap) of
                 Some q \<Rightarrow>
                   (if port ap \<noteq> q
                    then (Inl (ErrorRecoveringState (PortConflict (port_name ap))), s1, [])
                    else (Inr False, s1, []))
               | None \<Rightarrow>
                   (Inr True, s1\<lparr>ports := Some (m(port_name ap \<mapsto> port ap))\<rparr>,
                    run_port_dispatch d (port_name ap) (port ap))))
      | None \<Rightarrow>
     (case state_update runner_ckpt of
        Some su \<Rightarrow>
          (if task_state s \<noteq> Some (update_state su)
           then (Inr True, s\<lparr>task_state := Some (update_state su)\<rparr>, [])
           else (Inr False, s, []))
      | None \<Rightarrow>
     (case history_state_update runner_ckpt of
        Some hu \<Rightarrow>
          (case processes s (update_process hu) of
             None \<Rightarrow> (Inl KeyError, s, [])
           | Some ph \<Rightarrow>
               (if hist_state ph \<noteq> Some (update_history_state hu)
                then (Inr True,
                      s\<lparr>processes := (processes s)
                          (update_process hu \<mapsto>
                             ph\<lparr>hist_state := Some (update_history_state hu)\<rparr>)\<rparr>,
                      [])
                else (Inr False, s, [])))
      | None \<Rightarrow>
     (case process_state runner_ckpt of
        None \<Rightarrow> (Inr False, s, [])
      | Some proc_update \<Rightarrow>
          (let p = process proc_update in
           case processes s p of
             None \<Rightarrow>
               (case transition_to_waiting p
                       \<lparr>hist_process = p, runs = [], hist_state = Some ACTIVE\<rparr> (Some 0) of
                  (ps, forged, process_history) \<Rightarrow>
                    run_state_machine d s p process_history ps forged recovery)
           | Some process_history \<Rightarrow>
               (if runs process_history = [] then (Inl IndexError, s, [])
                else
                  (let ps = last (runs process_history) in
                   if is_terminal ps then
                     (if is_terminal proc_update
                      then (Inl (ErrorRecoveringState (TwoConsecutiveTerminal p)), s, [])
                      else
                        (case transition_to_waiting p process_history (seq ps) of
                           (ps1, forged, process_history1) \<Rightarrow>
                             (case seq forged of
                                None \<Rightarrow>
                                  (Inl TypeError,
                                   s\<lparr>processes := (processes s)(p \<mapsto> process_history1)\<rparr>, [])
                              | Some n \<Rightarrow>
                                  run_state_machine d s p process_history1 ps1
                                    (forged\<lparr>seq := Some (n + 1)\<rparr>) recovery)))
                   else run_state_machine d s p process_history ps proc_update recovery))))))))"

section \<open>Replay of a log\<close>

text \<open>
  \<open>from_file\<close> reads the records of a file through a record reader, which is outside the
  dispatcher: the records read are the argument. The loop calls \<open>update_runner_state\<close>
  with two arguments, so \<open>recovery\<close> has its default. An exception of the dispatcher makes
  the result \<open>None\<close>; any other exception leaves \<open>from_file\<close>.
\<close>

definition empty_state :: TaskRunnerState where
  "empty_state = \<lparr>header = None, ports = None, processes = Map.empty, task_state = None\<rparr>"

fun from_file_loop ::
  "TaskCkptDispatcher \<Rightarrow> TaskRunnerState \<Rightarrow> TaskRunnerCkpt list
     \<Rightarrow> error + TaskRunnerState option" where
  "from_file_loop builder s [] = Inr (Some s)"
| "from_file_loop builder s (proc_update # rr) =
     (case update_runner_state builder s proc_update False of
        (Inl e, s', calls) \<Rightarrow> (if is_dispatcher_error e then Inr None else Inl e)
      | (Inr applied, s', calls) \<Rightarrow> from_file_loop builder s' rr)"

definition from_file :: "TaskRunnerCkpt list \<Rightarrow> error + TaskRunnerState option" where
  "from_file records = from_file_loop init empty_state records"

section \<open>The specification's vocabulary\<close>

text \<open>
  The port a name is bound to in a state, if any, and the bindings of a state
  (none when \<open>ports\<close> is \<open>None\<close>).
\<close>

definition bound_port :: "TaskRunnerState \<Rightarrow> string \<Rightarrow> int option" where
  "bound_port s name = (case ports s of None \<Rightarrow> None | Some m \<Rightarrow> m name)"

definition port_map :: "TaskRunnerState \<Rightarrow> (string \<rightharpoonup> int)" where
  "port_map s = (case ports s of None \<Rightarrow> Map.empty | Some m \<Rightarrow> m)"

definition runs_of :: "TaskRunnerState \<Rightarrow> string option \<Rightarrow> ProcessState list" where
  "runs_of s p = (case processes s p of None \<Rightarrow> [] | Some h \<Rightarrow> runs h)"

definition raises_ErrorRecoveringState :: "error + bool \<Rightarrow> bool" where
  "raises_ErrorRecoveringState res =
     (case res of Inl (ErrorRecoveringState r) \<Rightarrow> True | _ \<Rightarrow> False)"

text \<open>
  The replay driver in the specification's words: a fold of the records over the empty
  state, every record applied with the given recovery flag; an error of the dispatcher
  ends the replay with no state.
\<close>

definition replay_step ::
  "bool \<Rightarrow> error + TaskRunnerState option \<Rightarrow> TaskRunnerCkpt
     \<Rightarrow> error + TaskRunnerState option" where
  "replay_step recovery acc record =
     (case acc of
        Inr (Some s) \<Rightarrow>
          (case fst (update_runner_state init s record recovery) of
             Inl e \<Rightarrow> (if is_dispatcher_error e then Inr None else Inl e)
           | Inr applied \<Rightarrow> Inr (Some (fst (snd (update_runner_state init s record recovery)))))
      | _ \<Rightarrow> acc)"

definition replay_spec :: "bool \<Rightarrow> TaskRunnerCkpt list \<Rightarrow> error + TaskRunnerState option" where
  "replay_spec recovery records = foldl (replay_step recovery) (Inr (Some empty_state)) records"

text \<open>
  A record whose only populated variant is \<open>process_state\<close>, holding \<open>u\<close>.
\<close>

definition process_record :: "TaskRunnerCkpt \<Rightarrow> ProcessState \<Rightarrow> bool" where
  "process_record ckpt u =
     (runner_header ckpt = None \<and> allocated_port ckpt = None \<and> state_update ckpt = None
      \<and> history_state_update ckpt = None \<and> process_state ckpt = Some u)"

text \<open>
  The run a forged WAITING update leaves: sequence number, process name and WAITING,
  nothing else.
\<close>

definition waiting_run :: "string option \<Rightarrow> int \<Rightarrow> ProcessState" where
  "waiting_run p n = (new_process_state p (Some n))\<lparr>run_state := Some WAITING\<rparr>"

definition new_history :: "string option \<Rightarrow> ProcessHistory" where
  "new_history p = \<lparr>hist_process = p, runs = [waiting_run p 0], hist_state = Some ACTIVE\<rparr>"

text \<open>
  The value of an attribute read by name.
\<close>

datatype field_value =
  IntValue "int option" | NameValue "string option" | RunStateValue "ProcessRunState option"

fun get_field :: "ProcessState \<Rightarrow> field \<Rightarrow> field_value" where
  "get_field ps F_seq = IntValue (seq ps)"
| "get_field ps F_process = NameValue (process ps)"
| "get_field ps F_run_state = RunStateValue (run_state ps)"
| "get_field ps F_fork_time = IntValue (fork_time ps)"
| "get_field ps F_runner_pid = IntValue (runner_pid ps)"
| "get_field ps F_start_time = IntValue (start_time ps)"
| "get_field ps F_pid = IntValue (pid ps)"
| "get_field ps F_stop_time = IntValue (stop_time ps)"
| "get_field ps F_return_code = IntValue (return_code ps)"

text \<open>
  The specification's table of the fields each transition requires on the update, and
  its graph of legal transitions (the current run state, \<open>None\<close> when absent, and the
  update's).
\<close>

fun required_fields_spec :: "ProcessRunState \<Rightarrow> field list" where
  "required_fields_spec WAITING = [F_seq, F_run_state, F_process]"
| "required_fields_spec FORKED = [F_seq, F_run_state, F_fork_time, F_runner_pid]"
| "required_fields_spec RUNNING = [F_seq, F_run_state, F_start_time, F_pid]"
| "required_fields_spec FINISHED = [F_seq, F_run_state, F_stop_time, F_return_code]"
| "required_fields_spec FAILED = [F_seq, F_run_state, F_stop_time, F_return_code]"
| "required_fields_spec KILLED = [F_seq, F_run_state, F_stop_time]"
| "required_fields_spec LOST = [F_seq, F_run_state]"
| "required_fields_spec (UNKNOWN_RUN_STATE n) = []"

definition legal_transition :: "ProcessRunState option \<Rightarrow> ProcessRunState \<Rightarrow> bool" where
  "legal_transition cur r =
     ((cur, r) \<in> set [(None, WAITING), (Some WAITING, FORKED), (Some FORKED, RUNNING),
                      (Some RUNNING, FINISHED), (Some RUNNING, FAILED),
                      (Some FORKED, KILLED), (Some RUNNING, KILLED),
                      (Some FORKED, LOST), (Some RUNNING, LOST)])"

text \<open>
  The states that successful calls of \<open>update_runner_state\<close> lead to from the empty
  state, and what holds of every history in them: it has a name, a run, and a sequence
  number on its tail run.
\<close>

inductive reachable :: "TaskCkptDispatcher \<Rightarrow> TaskRunnerState \<Rightarrow> bool" for d where
  reachable_empty: "reachable d empty_state"
| reachable_apply:
    "reachable d s \<Longrightarrow> update_runner_state d s ckpt recovery = (Inr applied, s', calls)
       \<Longrightarrow> reachable d s'"

definition well_formed :: "TaskRunnerState \<Rightarrow> bool" where
  "well_formed s =
     (\<forall>p h. processes s p = Some h \<longrightarrow>
        p \<noteq> None \<and> runs h \<noteq> [] \<and> seq (last (runs h)) \<noteq> None)"

section \<open>Concrete records\<close>

definition example_run :: "int \<Rightarrow> ProcessRunState \<Rightarrow> ProcessState" where
  "example_run n r = (new_process_state (Some ''p'') (Some n))\<lparr>run_state := Some r\<rparr>"

definition example_forked :: "int \<Rightarrow> ProcessState" where
  "example_forked n = (example_run n FORKED)\<lparr>fork_time := Some 100, runner_pid := Some 42\<rparr>"

definition process_ckpt :: "ProcessState \<Rightarrow> TaskRunnerCkpt" where
  "process_ckpt u =
     \<lparr>runner_header = None, allocated_port = None, state_update = None,
      history_state_update = None, process_state = Some u\<rparr>"

definition port_ckpt :: "string \<Rightarrow> int \<Rightarrow> TaskRunnerCkpt" where
  "port_ckpt name p =
     \<lparr>runner_header = None, allocated_port = Some \<lparr>port = p, port_name = name\<rparr>,
      state_update = None, history_state_update = None, process_state = None\<rparr>"

definition history_ckpt :: "string option \<Rightarrow> TaskState \<Rightarrow> TaskRunnerCkpt" where
  "history_ckpt p st =
     \<lparr>runner_header = None, allocated_port = None, state_update = None,
      history_state_update = Some \<lparr>update_process = p, update_history_state = st\<rparr>,
      process_state = None\<rparr>"

definition example_dispatcher :: TaskCkptDispatcher where
  "example_dispatcher =
     register_port_handler (register_port_handler
       (register_state_handler (register_universal_handler init 1) (Some WAITING) 2) 3) 4"

definition example_log :: "TaskRunnerCkpt list" where
  "example_log =
     [process_ckpt (example_run 0 WAITING), process_ckpt (example_forked 1),
      process_ckpt (example_forked 1)]"

definition example_history :: "ProcessState list \<Rightarrow> ProcessHistory" where
  "example_history rs = \<lparr>hist_process = Some ''p'', runs = rs, hist_state = Some ACTIVE\<rparr>"

definition example_state :: "ProcessState list \<Rightarrow> TaskRunnerState" where
  "example_state rs = empty_state\<lparr>processes := [Some ''p'' \<mapsto> example_history rs]\<rparr>"

definition example_forked_5 :: ProcessState where
  "example_forked_5 = example_forked 5"

definition nameless_update :: ProcessState where
  "nameless_update = waiting_run None 0"

definition stale_waiting :: ProcessState where
  "stale_waiting = (example_run 0 WAITING)\<lparr>fork_time := Some 7\<rparr>"

definition example_lost :: ProcessState where
  "example_lost = (example_forked 1)\<lparr>seq := Some 2, run_state := Some LOST\<rparr>"

section \<open>Evaluation\<close>

lemmas eval_defs =
  process_ckpt_def port_ckpt_def history_ckpt_def example_forked_def example_run_def
  example_history_def example_state_def example_dispatcher_def
  new_process_state_def update_runner_state_def transition_to_waiting_def
  run_state_machine_def update_task_state_def copy_fields_def run_state_dispatch_def
  run_port_dispatch_def register_port_handler_def register_state_handler_def
  register_universal_handler_def init_def empty_state_def
  is_terminal_def TERMINAL_STATES_def py_le_def Let_def

section \<open>The sequence-number policy\<close>

text \<open>
  C6. In \<open>update_task_state\<close>, an update without a sequence number fails with
  \<open>InvalidSequenceNumber\<close>. When the current record's sequence number is greater than
  zero and the update's is not greater than it, the call returns \<open>False\<close> in recovery mode,
  raising nothing, leaving the record as it was and calling no handler, and fails with
  \<open>InvalidSequenceNumber\<close> outside recovery mode.
\<close>

theorem update_task_state_sequence_policy:
  "(seq upd = None \<longrightarrow>
      update_task_state d ps upd recovery = (Inl InvalidSequenceNumber, ps, []))
   \<and> (seq ps = Some c \<and> 0 < c \<and> seq upd = Some u \<and> u \<le> c \<longrightarrow>
      update_task_state d ps upd recovery =
        (if recovery then (Inr False, ps, []) else (Inl InvalidSequenceNumber, ps, [])))"
  by (auto simp: update_task_state_def py_le_def)

theorem update_task_state_sequence_policy_witness:
  "seq (new_process_state (Some ''p'') None) = None
   \<and> update_task_state init (example_run 1 FORKED) (new_process_state (Some ''p'') None) True
       = (Inl InvalidSequenceNumber, example_run 1 FORKED, [])
   \<and> seq (example_run 1 FORKED) = Some 1 \<and> (0::int) < 1 \<and> (1::int) \<le> 1
   \<and> update_task_state init (example_run 1 FORKED) (example_run 1 FORKED) True
       = (Inr False, example_run 1 FORKED, [])
   \<and> update_task_state init (example_run 1 FORKED) (example_run 1 FORKED) False
       = (Inl InvalidSequenceNumber, example_run 1 FORKED, [])"
  using update_task_state_sequence_policy
          [of "new_process_state (Some ''p'') None" init "example_run 1 FORKED" True 1 1]
        update_task_state_sequence_policy
          [of "example_run 1 FORKED" init "example_run 1 FORKED" True 1 1]
        update_task_state_sequence_policy
          [of "example_run 1 FORKED" init "example_run 1 FORKED" False 1 1]
  by (simp add: example_run_def new_process_state_def)

section \<open>Port allocation\<close>

text \<open>
  C8. For a port-allocation record (no header, \<open>allocated_port\<close> populated): when the
  name is not bound, the binding is recorded, every port handler is called once with the
  name and the port, in registration order, and the result is \<open>True\<close>; when the name is
  bound to the same port, the result is \<open>False\<close>, the state is the same and no handler
  is called; when it is bound to another port, the call fails with
  \<open>ErrorRecoveringState\<close>.
\<close>

theorem port_allocation_cases:
  assumes "runner_header ckpt = None" and "allocated_port ckpt = Some ap"
  shows "(bound_port s (port_name ap) = None \<longrightarrow>
            update_runner_state d s ckpt recovery =
              (Inr True,
               s\<lparr>ports := Some ((port_map s)(port_name ap \<mapsto> port ap))\<rparr>,
               map (\<lambda>h. PortCall h (port_name ap) (port ap)) (port_handlers d)))
       \<and> (bound_port s (port_name ap) = Some (port ap) \<longrightarrow>
            update_runner_state d s ckpt recovery = (Inr False, s, []))
       \<and> (\<forall>q. bound_port s (port_name ap) = Some q \<and> q \<noteq> port ap \<longrightarrow>
            update_runner_state d s ckpt recovery =
              (Inl (ErrorRecoveringState (PortConflict (port_name ap))), s, []))"
  using assms
  by (auto simp: update_runner_state_def bound_port_def port_map_def run_port_dispatch_def
           split: option.splits)

theorem port_allocation_cases_witness:
  "runner_header (port_ckpt ''http'' 80) = None
   \<and> allocated_port (port_ckpt ''http'' 80) = Some \<lparr>port = 80, port_name = ''http''\<rparr>
   \<and> bound_port empty_state ''http'' = None
   \<and> update_runner_state example_dispatcher empty_state (port_ckpt ''http'' 80) False
       = (Inr True, empty_state\<lparr>ports := Some [''http'' \<mapsto> 80]\<rparr>,
          [PortCall 3 ''http'' 80, PortCall 4 ''http'' 80])
   \<and> bound_port (empty_state\<lparr>ports := Some [''http'' \<mapsto> 80]\<rparr>) ''http'' = Some 80
   \<and> update_runner_state example_dispatcher (empty_state\<lparr>ports := Some [''http'' \<mapsto> 80]\<rparr>)
         (port_ckpt ''http'' 80) False
       = (Inr False, empty_state\<lparr>ports := Some [''http'' \<mapsto> 80]\<rparr>, [])
   \<and> (80::int) \<noteq> 8080
   \<and> update_runner_state example_dispatcher (empty_state\<lparr>ports := Some [''http'' \<mapsto> 80]\<rparr>)
         (port_ckpt ''http'' 8080) False
       = (Inl (ErrorRecoveringState (PortConflict ''http'')),
          empty_state\<lparr>ports := Some [''http'' \<mapsto> 80]\<rparr>, [])"
  using port_allocation_cases
          [where ckpt = "port_ckpt ''http'' 80" and ap = "\<lparr>port = 80, port_name = ''http''\<rparr>"
             and s = empty_state and d = example_dispatcher and recovery = False]
        port_allocation_cases
          [where ckpt = "port_ckpt ''http'' 80" and ap = "\<lparr>port = 80, port_name = ''http''\<rparr>"
             and s = "empty_state\<lparr>ports := Some [''http'' \<mapsto> 80]\<rparr>"
             and d = example_dispatcher and recovery = False]
        port_allocation_cases
          [where ckpt = "port_ckpt ''http'' 8080"
             and ap = "\<lparr>port = 8080, port_name = ''http''\<rparr>"
             and s = "empty_state\<lparr>ports := Some [''http'' \<mapsto> 80]\<rparr>"
             and d = example_dispatcher and recovery = False]
  by (simp add: port_ckpt_def bound_port_def port_map_def empty_state_def
        example_dispatcher_def register_port_handler_def register_state_handler_def
        register_universal_handler_def init_def)

section \<open>History-state updates\<close>

text \<open>
  C9, as the code has it. For a history-state update record (no header, port or task-state
  variant) whose process is not in \<open>processes\<close>, the dictionary lookup raises \<open>KeyError\<close>,
  which is not an error class of the dispatcher; the state is the same.
\<close>

theorem history_update_unknown_process:
  assumes "runner_header ckpt = None" and "allocated_port ckpt = None"
    and "state_update ckpt = None" and "history_state_update ckpt = Some hu"
    and "processes s (update_process hu) = None"
  shows "update_runner_state d s ckpt recovery = (Inl KeyError, s, [])
         \<and> \<not> is_dispatcher_error KeyError"
  using assms by (simp add: update_runner_state_def)

theorem history_update_unknown_process_witness:
  "runner_header (history_ckpt (Some ''q'') TASK_FAILED) = None
   \<and> allocated_port (history_ckpt (Some ''q'') TASK_FAILED) = None
   \<and> state_update (history_ckpt (Some ''q'') TASK_FAILED) = None
   \<and> history_state_update (history_ckpt (Some ''q'') TASK_FAILED)
       = Some \<lparr>update_process = Some ''q'', update_history_state = TASK_FAILED\<rparr>
   \<and> processes (example_state [example_run 0 WAITING]) (Some ''q'') = None
   \<and> update_runner_state example_dispatcher (example_state [example_run 0 WAITING])
         (history_ckpt (Some ''q'') TASK_FAILED) True
       = (Inl KeyError, example_state [example_run 0 WAITING], [])"
  using history_update_unknown_process
          [where ckpt = "history_ckpt (Some ''q'') TASK_FAILED"
             and hu = "\<lparr>update_process = Some ''q'', update_history_state = TASK_FAILED\<rparr>"
             and s = "example_state [example_run 0 WAITING]"
             and d = example_dispatcher and recovery = True]
  by (simp add: history_ckpt_def example_state_def)

text \<open>
  C9 as stated fails: on the empty state, a history-state update for \<open>p\<close> does not raise
  \<open>ErrorRecoveringState\<close>.
\<close>

theorem history_update_unknown_process_counterexample:
  "\<not> raises_ErrorRecoveringState
       (fst (update_runner_state init empty_state (history_ckpt (Some ''p'') SUCCESS) False))"
  by (simp add: update_runner_state_def history_ckpt_def empty_state_def
        raises_ErrorRecoveringState_def)

section \<open>The read-only predicate\<close>

text \<open>
  C10. \<open>would_update\<close> returns \<open>False\<close> for every record whose \<open>process_state\<close> is not
  populated, whatever its other variants, and for a populated \<open>process_state\<close> that names
  a process with a history (with at least one run) its result is the comparison of the
  tail run's sequence number with the update's, in Python 2's order; the run states play
  no part. In both cases the state is the one passed in.
\<close>

theorem would_update_result:
  "(process_state ckpt = None \<longrightarrow> would_update d s ckpt = (Inr False, s))
   \<and> (\<forall>u h. process_state ckpt = Some u \<and> processes s (process u) = Some h \<and> runs h \<noteq> [] \<longrightarrow>
         would_update d s ckpt = (Inr (py_less (seq (last (runs h))) (seq u)), s))"
  by (auto simp: would_update_def)

theorem would_update_result_witness:
  "process_state (port_ckpt ''http'' 80) = None
   \<and> would_update init (example_state [example_forked 1]) (port_ckpt ''http'' 80)
       = (Inr False, example_state [example_forked 1])
   \<and> process_state (process_ckpt (example_run 2 FINISHED)) = Some (example_run 2 FINISHED)
   \<and> processes (example_state [example_forked 1]) (process (example_run 2 FINISHED))
       = Some (example_history [example_forked 1])
   \<and> runs (example_history [example_forked 1]) \<noteq> []
   \<and> would_update init (example_state [example_forked 1]) (process_ckpt (example_run 2 FINISHED))
       = (Inr True, example_state [example_forked 1])"
  using would_update_result
          [where ckpt = "port_ckpt ''http'' 80" and s = "example_state [example_forked 1]"
             and d = init]
        would_update_result
          [where ckpt = "process_ckpt (example_run 2 FINISHED)"
             and s = "example_state [example_forked 1]" and d = init]
  by (simp add: port_ckpt_def process_ckpt_def example_state_def example_history_def
        example_run_def example_forked_def new_process_state_def)

section \<open>Replay\<close>

lemma replay_step_None: "replay_step r (Inr None) x = Inr None"
  by (simp add: replay_step_def)

lemma replay_step_Inl: "replay_step r (Inl e) x = Inl e"
  by (simp add: replay_step_def)

lemma replay_step_Some:
  "replay_step r (Inr (Some s)) x =
     (case fst (update_runner_state init s x r) of
        Inl e \<Rightarrow> (if is_dispatcher_error e then Inr None else Inl e)
      | Inr applied \<Rightarrow> Inr (Some (fst (snd (update_runner_state init s x r)))))"
  by (simp add: replay_step_def)

lemma foldl_replay_step_None: "foldl (replay_step r) (Inr None) rs = Inr None"
  by (induction rs) (simp_all add: replay_step_None)

lemma foldl_replay_step_Inl: "foldl (replay_step r) (Inl e) rs = Inl e"
  by (induction rs) (simp_all add: replay_step_Inl)

lemma from_file_loop_foldl:
  "from_file_loop init s rs = foldl (replay_step False) (Inr (Some s)) rs"
proof (induction rs arbitrary: s)
  case Nil
  show ?case by simp
next
  case (Cons r rs)
  obtain res s' calls where step: "update_runner_state init s r False = (res, s', calls)"
    by (cases "update_runner_state init s r False") auto
  show ?case
  proof (cases res)
    case (Inl e)
    with step show ?thesis
      by (simp add: replay_step_Some foldl_replay_step_None foldl_replay_step_Inl)
  next
    case (Inr applied)
    with step Cons.IH [of s'] show ?thesis
      by (simp add: replay_step_Some)
  qed
qed

text \<open>
  C1, as the code has it. \<open>from_file\<close> folds the records into a fresh empty state, calling
  \<open>update_runner_state\<close> for every record with the recovery flag at its default, false.
\<close>

theorem from_file_replays_without_recovery: "from_file records = replay_spec False records"
  by (simp add: from_file_def replay_spec_def from_file_loop_foldl)

theorem from_file_replays_without_recovery_witness:
  "from_file example_log = replay_spec False example_log \<and> from_file example_log = Inr None"
  using from_file_replays_without_recovery [of example_log]
  by (simp add: replay_spec_def replay_step_Some replay_step_None example_log_def eval_defs)

text \<open>
  C1 as stated fails: a log that repeats a FORKED record is rejected by \<open>from_file\<close> and
  accepted by a replay in recovery mode.
\<close>

theorem from_file_recovery_counterexample:
  "from_file example_log = Inr None \<and> replay_spec True example_log \<noteq> Inr None"
  by (simp add: from_file_def replay_spec_def replay_step_Some replay_step_None example_log_def
        eval_defs)

section \<open>Lemmas on the state machine and the dispatcher\<close>

lemma py_le_Some [simp]: "py_le (Some a) (Some b) = (a \<le> b)"
  by (auto simp: py_le_def)

lemma forged_update:
  "(new_process_state p (Some n))\<lparr>run_state := Some WAITING\<rparr> = waiting_run p n"
  "(new_process_state p (Some n))\<lparr>run_state := Some WAITING, seq := Some m\<rparr> = waiting_run p m"
  by (simp_all add: waiting_run_def new_process_state_def)

lemma update_task_state_forged:
  assumes "\<not> (0 < n \<and> m \<le> n)"
  shows "update_task_state d (new_process_state (Some p) (Some n)) (waiting_run (Some p) m)
           recovery
         = (Inr True, waiting_run (Some p) m,
            run_state_dispatch d (Some WAITING) (waiting_run (Some p) m))"
  using assms
  by (auto simp: update_task_state_def copy_fields_def new_process_state_def waiting_run_def)

lemma update_task_state_forged_nameless:
  "update_task_state d (new_process_state None (Some n)) (waiting_run None m) recovery
   = (if 0 < n \<and> m \<le> n then
        (if recovery then Inr False else Inl InvalidSequenceNumber)
      else Inl (ErrorRecoveringState (MissingField F_process)),
      new_process_state None (Some n), [])"
  by (auto simp: update_task_state_def copy_fields_def new_process_state_def waiting_run_def)

lemma process_record_unknown:
  assumes "process_record ckpt u" and "processes s (process u) = None"
  shows "update_runner_state d s ckpt recovery =
           run_state_machine d s (process u)
             \<lparr>hist_process = process u, runs = [new_process_state (process u) (Some 0)],
              hist_state = Some ACTIVE\<rparr>
             (new_process_state (process u) (Some 0)) (waiting_run (process u) 0) recovery"
  using assms
  by (simp add: process_record_def update_runner_state_def transition_to_waiting_def Let_def
        forged_update)

section \<open>A process seen for the first time\<close>

text \<open>
  C2, as the code has it. For a process run-state record that names a process not yet in
  the state, \<open>update_runner_state\<close> creates a history with state ACTIVE, appends a run
  at sequence 0 and runs the state machine on that run against the WAITING update that
  \<open>transition_to_waiting\<close> forges (sequence 0, the process name), which replaces the
  supplied update: the result is \<open>True\<close>, the history holds the single run WAITING at
  sequence 0, the handlers are called with the forged update, and the run state, sequence
  number and other fields of the supplied update play no part.
\<close>

theorem unknown_process_forged_waiting:
  assumes "process_record ckpt u" and "process u = Some p" and "processes s (Some p) = None"
  shows "update_runner_state d s ckpt recovery =
           (Inr True, s\<lparr>processes := (processes s)(Some p \<mapsto> new_history (Some p))\<rparr>,
            run_state_dispatch d (Some WAITING) (waiting_run (Some p) 0))"
  using assms
  by (simp add: process_record_unknown run_state_machine_def update_task_state_forged
        new_history_def)

theorem unknown_process_forged_waiting_witness:
  "process_record (process_ckpt example_forked_5) example_forked_5
   \<and> process example_forked_5 = Some ''p''
   \<and> processes empty_state (Some ''p'') = None
   \<and> update_runner_state example_dispatcher empty_state (process_ckpt example_forked_5) False
       = (Inr True, example_state [example_run 0 WAITING],
          [StateCall 1 (example_run 0 WAITING), StateCall 2 (example_run 0 WAITING)])"
  using unknown_process_forged_waiting
          [where ckpt = "process_ckpt example_forked_5" and u = example_forked_5
             and p = "''p''" and s = empty_state and d = example_dispatcher
             and recovery = False]
  by (simp add: process_record_def process_ckpt_def example_forked_5_def example_forked_def
        example_run_def new_process_state_def empty_state_def example_state_def
        example_history_def new_history_def waiting_run_def run_state_dispatch_def
        example_dispatcher_def register_port_handler_def register_state_handler_def
        register_universal_handler_def init_def)

text \<open>
  C2 as stated fails: for a FORKED update at sequence 5 on the empty state, the new run is
  WAITING at sequence 0, while the state machine run against the supplied update on a
  WAITING run at sequence 0 would leave the supplied FORKED run.
\<close>

theorem unknown_process_supplied_update_counterexample:
  "runs_of (fst (snd (update_runner_state init empty_state
                        (process_ckpt example_forked_5) False))) (Some ''p'')
     = [example_run 0 WAITING]
   \<and> fst (snd (update_task_state init (example_run 0 WAITING) example_forked_5 False))
       = example_forked_5
   \<and> example_forked_5 \<noteq> example_run 0 WAITING"
  by (simp add: runs_of_def example_forked_5_def eval_defs)

section \<open>Rejected records\<close>

text \<open>
  C5, at a failing input. A process run-state record whose update has no process name,
  on the empty state: the call raises \<open>ErrorRecoveringState\<close> (the forged update misses
  \<open>process\<close>), after the new history has been stored under the key \<open>None\<close>, so the
  state is not what it was before the call.
\<close>

theorem nameless_process_partial_application:
  "update_runner_state init empty_state (process_ckpt nameless_update) False
     = (Inl (ErrorRecoveringState (MissingField F_process)),
        empty_state\<lparr>processes :=
          [None \<mapsto> \<lparr>hist_process = None, runs = [new_process_state None (Some 0)],
                     hist_state = Some ACTIVE\<rparr>]\<rparr>,
        [])
   \<and> is_dispatcher_error (ErrorRecoveringState (MissingField F_process))
   \<and> runs_of (fst (snd (update_runner_state init empty_state
                           (process_ckpt nameless_update) False))) None
       \<noteq> runs_of empty_state None"
  by (simp add: runs_of_def nameless_update_def waiting_run_def eval_defs)

section \<open>The transition graph\<close>

text \<open>
  C4, at a failing input. The branch for WAITING has no check of the current run state:
  a WAITING update at sequence 2 is accepted on a FORKED run at sequence 1, by
  \<open>update_task_state\<close> and by \<open>update_runner_state\<close>, though FORKED to WAITING is not an
  edge of the graph.
\<close>

theorem forked_to_waiting_accepted:
  "update_task_state init (example_forked 1) (example_run 2 WAITING) False
     = (Inr True, (example_forked 1)\<lparr>seq := Some 2, run_state := Some WAITING\<rparr>, [])
   \<and> update_runner_state init (example_state [example_forked 1])
         (process_ckpt (example_run 2 WAITING)) False
     = (Inr True,
        example_state [(example_forked 1)\<lparr>seq := Some 2, run_state := Some WAITING\<rparr>], [])"
  by (simp add: eval_defs)

lemma py_less_Some_0 [simp]: "py_less (Some 0) s = (\<exists>c. s = Some c \<and> 0 < c)"
  by (cases s) auto

lemma transition_legal:
  assumes "legal_transition (run_state ps) r"
  shows "transition ps upd r = copy_fields ps upd (required_fields_spec r)"
  using assms by (cases r) (auto simp: legal_transition_def)

lemma check_nonempty_fields_None:
  "(check_nonempty_fields upd fs = None) = (\<forall>f \<in> set fs. \<not> field_is_none upd f)"
  by (induction fs) auto

lemma check_nonempty_fields_Some:
  "check_nonempty_fields upd fs = Some e \<Longrightarrow>
     \<exists>f \<in> set fs. field_is_none upd f \<and> e = ErrorRecoveringState (MissingField f)"
  by (induction fs) (auto split: if_splits)

lemma get_field_copy_field:
  "get_field (copy_field ps upd g) f = (if f = g then get_field upd f else get_field ps f)"
  by (cases g; cases f) simp_all

lemma get_field_copy_loop:
  "get_field (copy_loop ps upd fs) f =
     (if f \<in> set fs then get_field upd f else get_field ps f)"
  by (induction fs arbitrary: ps) (auto simp: get_field_copy_field)

lemma update_task_state_legal:
  assumes "seq upd = Some u" and "seq ps = Some c" and "c \<le> 0 \<or> c < u"
    and "run_state upd = Some r" and "legal_transition (run_state ps) r"
  shows "update_task_state d ps upd recovery =
           (case check_nonempty_fields upd (required_fields_spec r) of
              Some e \<Rightarrow> (Inl e, ps, [])
            | None \<Rightarrow> (Inr True, copy_loop ps upd (required_fields_spec r),
                       run_state_dispatch d (Some r) upd))"
proof -
  have "run_state ps \<noteq> Some r"
    using assms(5) by (auto simp: legal_transition_def)
  then show ?thesis
    using assms
    by (auto simp: update_task_state_def transition_legal copy_fields_def split: option.splits)
qed

section \<open>Required fields\<close>

text \<open>
  C3, as the code has it. For a transition of the graph that passes the sequence checks,
  the required fields are looked for on the update only. When one of them is missing
  there, the call fails with \<open>ErrorRecoveringState\<close> naming a missing required field
  and the record is unchanged. When all are there, the call succeeds whatever the current
  record holds: each required field of the record is overwritten with the update's value
  and every other field is kept.
\<close>

theorem required_fields_checked_on_update_only:
  assumes "seq upd = Some u" and "seq ps = Some c" and "c \<le> 0 \<or> c < u"
    and "run_state upd = Some r" and "legal_transition (run_state ps) r"
  shows "((\<exists>f \<in> set (required_fields_spec r). field_is_none upd f) \<longrightarrow>
            (\<exists>f \<in> set (required_fields_spec r). field_is_none upd f
               \<and> update_task_state d ps upd recovery
                   = (Inl (ErrorRecoveringState (MissingField f)), ps, [])))
       \<and> ((\<forall>f \<in> set (required_fields_spec r). \<not> field_is_none upd f) \<longrightarrow>
            (\<exists>ps'. update_task_state d ps upd recovery
                     = (Inr True, ps', run_state_dispatch d (Some r) upd)
               \<and> (\<forall>f. get_field ps' f =
                     (if f \<in> set (required_fields_spec r) then get_field upd f
                      else get_field ps f))))"
proof (cases "check_nonempty_fields upd (required_fields_spec r)")
  case None
  then have "\<forall>f \<in> set (required_fields_spec r). \<not> field_is_none upd f"
    by (simp add: check_nonempty_fields_None)
  with None show ?thesis
    by (simp add: update_task_state_legal [OF assms] get_field_copy_loop)
next
  case (Some e)
  then obtain f where "f \<in> set (required_fields_spec r)" "field_is_none upd f"
      "e = ErrorRecoveringState (MissingField f)"
    by (blast dest: check_nonempty_fields_Some)
  with Some show ?thesis
    by (auto simp: update_task_state_legal [OF assms])
qed

theorem required_fields_checked_on_update_only_witness:
  "seq (example_forked 1) = Some 1 \<and> seq stale_waiting = Some 0 \<and> ((0::int) \<le> 0 \<or> (0::int) < 1)
   \<and> run_state (example_forked 1) = Some FORKED
   \<and> legal_transition (run_state stale_waiting) FORKED
   \<and> update_task_state init stale_waiting (example_forked 1) False
       = (Inr True, example_forked 1, [])
   \<and> update_task_state init stale_waiting (example_run 1 FORKED) False
       = (Inl (ErrorRecoveringState (MissingField F_fork_time)), stale_waiting, [])"
  using required_fields_checked_on_update_only
          [where upd = "example_forked 1" and ps = stale_waiting and u = 1 and c = 0
             and r = FORKED and d = init and recovery = False]
        required_fields_checked_on_update_only
          [where upd = "example_run 1 FORKED" and ps = stale_waiting and u = 1 and c = 0
             and r = FORKED and d = init and recovery = False]
  by (simp add: stale_waiting_def legal_transition_def eval_defs)

text \<open>
  C3 as stated fails: \<open>fork_time\<close> is required by WAITING to FORKED and is present on
  the current record and on the update, and the update is accepted.
\<close>

theorem required_field_present_counterexample:
  "F_fork_time \<in> set (required_fields_spec FORKED)
   \<and> \<not> field_is_none stale_waiting F_fork_time
   \<and> \<not> field_is_none (example_forked 1) F_fork_time
   \<and> update_task_state init stale_waiting (example_forked 1) False
       = (Inr True, example_forked 1, [])"
  by (simp add: stale_waiting_def eval_defs)

text \<open>
  The helper that does reject a field present on the target, \<open>check_and_copy_fields\<close>,
  is not called by the state machine.
\<close>

lemma check_and_copy_fields_rejects_present:
  assumes "f \<in> set fs" and "\<not> field_is_none ps f"
  shows "\<exists>g \<in> set fs. \<not> field_is_none ps g
           \<and> check_and_copy_fields ps upd fs = (Some (ErrorRecoveringState (FieldNotEmpty g)), ps)"
proof -
  have "\<exists>g \<in> set fs. \<not> field_is_none ps g
          \<and> check_empty_fields ps fs = Some (ErrorRecoveringState (FieldNotEmpty g))"
    using assms by (induction fs) auto
  then show ?thesis
    by (auto simp: check_and_copy_fields_def)
qed

text \<open>
  Every update to a run state other than WAITING is rejected with
  \<open>InvalidStateTransition\<close> unless its edge is in the graph.
\<close>

lemma update_task_state_rejects_illegal:
  assumes "seq upd = Some u" and "seq ps = Some c" and "c \<le> 0 \<or> c < u"
    and "run_state upd = Some r" and "\<not> legal_transition (run_state ps) r"
    and "r \<noteq> WAITING" and "\<forall>n. r \<noteq> UNKNOWN_RUN_STATE n"
  shows "update_task_state d ps upd recovery = (Inl InvalidStateTransition, ps, [])"
  using assms
  by (cases r) (auto simp: update_task_state_def legal_transition_def)

lemma process_record_known_nonterminal:
  assumes "process_record ckpt u" and "processes s (process u) = Some h"
    and "runs h \<noteq> []" and "\<not> is_terminal (last (runs h))"
  shows "update_runner_state d s ckpt recovery =
           run_state_machine d s (process u) h (last (runs h)) u recovery"
  using assms by (simp add: process_record_def update_runner_state_def Let_def)

lemma process_record_terminal_terminal:
  assumes "process_record ckpt u" and "processes s (process u) = Some h"
    and "runs h \<noteq> []" and "is_terminal (last (runs h))" and "is_terminal u"
  shows "update_runner_state d s ckpt recovery =
           (Inl (ErrorRecoveringState (TwoConsecutiveTerminal (process u))), s, [])"
  using assms by (simp add: process_record_def update_runner_state_def Let_def)

lemma process_record_terminal_fresh:
  assumes "process_record ckpt u" and "processes s (process u) = Some h"
    and "runs h \<noteq> []" and "is_terminal (last (runs h))" and "\<not> is_terminal u"
    and "seq (last (runs h)) = Some n"
  shows "update_runner_state d s ckpt recovery =
           run_state_machine d s (process u)
             (h\<lparr>runs := runs h @ [new_process_state (process u) (Some n)]\<rparr>)
             (new_process_state (process u) (Some n)) (waiting_run (process u) (n + 1))
             recovery"
  using assms
  by (simp add: process_record_def update_runner_state_def transition_to_waiting_def Let_def
        new_process_state_def waiting_run_def)

lemma transition_seq:
  "transition ps upd r = (None, ps') \<Longrightarrow> seq ps' = seq upd"
  by (cases r) (auto simp: copy_fields_def split: if_splits option.splits)

lemma transition_error_unchanged:
  "transition ps upd r = (Some e, ps') \<Longrightarrow> ps' = ps"
  by (cases r) (auto simp: copy_fields_def split: if_splits option.splits)

lemma update_task_state_seq:
  assumes "update_task_state d ps upd recovery = (res, ps', calls)" and "seq ps \<noteq> None"
  shows "seq ps' \<noteq> None"
  using assms
  by (auto simp: update_task_state_def split: if_splits option.splits prod.splits
           dest: transition_seq transition_error_unchanged)

lemma update_task_state_error_unchanged:
  assumes "update_task_state d ps upd recovery = (Inl e, ps', calls)"
  shows "ps' = ps"
  using assms
  by (auto simp: update_task_state_def split: if_splits option.splits prod.splits
           dest: transition_error_unchanged)

lemma write_back_same:
  assumes "processes s p = Some h" and "runs h \<noteq> []"
  shows "s\<lparr>processes := (processes s)(p \<mapsto> h\<lparr>runs := butlast (runs h) @ [last (runs h)]\<rparr>)\<rparr> = s"
proof -
  have "h\<lparr>runs := butlast (runs h) @ [last (runs h)]\<rparr> = h"
    using assms(2) by simp
  moreover have "(processes s)(p \<mapsto> h) = processes s"
    using assms(1) by (simp add: map_upd_triv)
  ultimately show ?thesis by simp
qed

lemma terminal_tail_step:
  assumes "well_formed s" and "process_record ckpt u"
    and "processes s (process u) = Some h" and "is_terminal (last (runs h))"
  shows "(is_terminal u \<longrightarrow>
            update_runner_state d s ckpt recovery =
              (Inl (ErrorRecoveringState (TwoConsecutiveTerminal (process u))), s, []))
       \<and> (\<not> is_terminal u \<longrightarrow>
            (\<exists>n. seq (last (runs h)) = Some n
               \<and> update_runner_state d s ckpt recovery =
                   (Inr True,
                    s\<lparr>processes := (processes s)
                        (process u \<mapsto> h\<lparr>runs := runs h @ [waiting_run (process u) (n + 1)]\<rparr>)\<rparr>,
                    run_state_dispatch d (Some WAITING) (waiting_run (process u) (n + 1)))))"
proof -
  from assms(1,3) obtain q n where q: "process u = Some q" and ne: "runs h \<noteq> []"
      and n: "seq (last (runs h)) = Some n"
    unfolding well_formed_def by fastforce
  have "\<not> (0 < n \<and> n + 1 \<le> n)" by simp
  then have forged: "update_task_state d (new_process_state (Some q) (Some n))
        (waiting_run (Some q) (n + 1)) recovery
      = (Inr True, waiting_run (Some q) (n + 1),
         run_state_dispatch d (Some WAITING) (waiting_run (Some q) (n + 1)))"
    by (rule update_task_state_forged)
  show ?thesis
  proof (intro conjI impI)
    assume "is_terminal u"
    with assms ne show "update_runner_state d s ckpt recovery =
        (Inl (ErrorRecoveringState (TwoConsecutiveTerminal (process u))), s, [])"
      by (simp add: process_record_terminal_terminal)
  next
    assume "\<not> is_terminal u"
    with assms ne n have "update_runner_state d s ckpt recovery =
        run_state_machine d s (process u)
          (h\<lparr>runs := runs h @ [new_process_state (process u) (Some n)]\<rparr>)
          (new_process_state (process u) (Some n)) (waiting_run (process u) (n + 1)) recovery"
      by (simp add: process_record_terminal_fresh)
    then have "update_runner_state d s ckpt recovery =
        (Inr True,
         s\<lparr>processes := (processes s)
             (process u \<mapsto> h\<lparr>runs := runs h @ [waiting_run (process u) (n + 1)]\<rparr>)\<rparr>,
         run_state_dispatch d (Some WAITING) (waiting_run (process u) (n + 1)))"
      by (simp add: run_state_machine_def q forged)
    with n show "\<exists>n. seq (last (runs h)) = Some n
        \<and> update_runner_state d s ckpt recovery =
            (Inr True,
             s\<lparr>processes := (processes s)
                 (process u \<mapsto> h\<lparr>runs := runs h @ [waiting_run (process u) (n + 1)]\<rparr>)\<rparr>,
             run_state_dispatch d (Some WAITING) (waiting_run (process u) (n + 1)))"
      by blast
  qed
qed

lemma other_record_runs:
  assumes "\<forall>u. \<not> process_record ckpt u"
    and "update_runner_state d s ckpt recovery = (res, s', calls)"
  shows "map_option runs (processes s' p) = map_option runs (processes s p)"
  using assms
  by (auto simp: update_runner_state_def process_record_def Let_def
           split: option.splits if_splits)

lemma process_record_step_shape:
  assumes wf: "well_formed s" and rec: "process_record ckpt u"
    and step: "update_runner_state d s ckpt recovery = (Inr applied, s', calls)"
  shows "\<exists>q h'. process u = Some q \<and> s' = s\<lparr>processes := (processes s)(Some q \<mapsto> h')\<rparr>
           \<and> runs h' \<noteq> [] \<and> seq (last (runs h')) \<noteq> None"
proof (cases "processes s (process u)")
  case None
  show ?thesis
  proof (cases "process u")
    case nameless: None
    have "fst (update_runner_state d s ckpt recovery)
            = Inl (ErrorRecoveringState (MissingField F_process))"
      using rec None nameless
      by (simp add: process_record_unknown run_state_machine_def
            update_task_state_forged_nameless)
    with step show ?thesis by simp
  next
    case (Some q)
    have "update_runner_state d s ckpt recovery =
            (Inr True, s\<lparr>processes := (processes s)(Some q \<mapsto> new_history (Some q))\<rparr>,
             run_state_dispatch d (Some WAITING) (waiting_run (Some q) 0))"
      using rec None Some
      by (simp add: process_record_unknown run_state_machine_def update_task_state_forged
            new_history_def)
    with step Some show ?thesis
      by (auto simp: new_history_def waiting_run_def new_process_state_def)
  qed
next
  case (Some h)
  with wf obtain q where q: "process u = Some q" and ne: "runs h \<noteq> []"
      and sq: "seq (last (runs h)) \<noteq> None"
    unfolding well_formed_def by fastforce
  show ?thesis
  proof (cases "is_terminal (last (runs h))")
    case True
    note tail = terminal_tail_step [OF wf rec Some True, of d recovery]
    show ?thesis
    proof (cases "is_terminal u")
      case True
      with tail step show ?thesis by simp
    next
      case False
      with tail step q show ?thesis
        by (auto simp: waiting_run_def new_process_state_def)
    qed
  next
    case False
    obtain res ps' cs where uts:
      "update_task_state d (last (runs h)) u recovery = (res, ps', cs)"
      by (cases "update_task_state d (last (runs h)) u recovery") auto
    from update_task_state_seq [OF uts sq] have "seq ps' \<noteq> None" .
    moreover have "s' = s\<lparr>processes := (processes s)
        (Some q \<mapsto> h\<lparr>runs := butlast (runs h) @ [ps']\<rparr>)\<rparr>"
      using step rec Some ne False uts q
      by (simp add: process_record_known_nonterminal run_state_machine_def)
    ultimately show ?thesis using q by auto
  qed
qed

lemma well_formed_step:
  assumes wf: "well_formed s"
    and step: "update_runner_state d s ckpt recovery = (Inr applied, s', calls)"
  shows "well_formed s'"
proof (cases "\<exists>u. process_record ckpt u")
  case True
  then obtain u where rec: "process_record ckpt u" ..
  from process_record_step_shape [OF wf rec step] obtain q h' where
    "s' = s\<lparr>processes := (processes s)(Some q \<mapsto> h')\<rparr>" "runs h' \<noteq> []"
    "seq (last (runs h')) \<noteq> None"
    by blast
  with wf show ?thesis
    unfolding well_formed_def by auto
next
  case False
  then have same: "\<And>p. map_option runs (processes s' p) = map_option runs (processes s p)"
    using step by (simp add: other_record_runs)
  show ?thesis
    unfolding well_formed_def
  proof (intro allI impI)
    fix p h'
    assume "processes s' p = Some h'"
    with same [of p] obtain h where "processes s p = Some h" "runs h = runs h'"
      by (cases "processes s p") auto
    with wf show "p \<noteq> None \<and> runs h' \<noteq> [] \<and> seq (last (runs h')) \<noteq> None"
      unfolding well_formed_def by metis
  qed
qed

lemma well_formed_empty: "well_formed empty_state"
  by (simp add: well_formed_def empty_state_def)

lemma reachable_well_formed: "reachable d s \<Longrightarrow> well_formed s"
  by (induction rule: reachable.induct) (auto intro: well_formed_empty well_formed_step)

text \<open>
  When the update of a process record has a process name, a call that raises an error of
  the dispatcher leaves the state as it was.
\<close>

lemma update_runner_state_atomic:
  assumes "update_runner_state d s ckpt recovery = (Inl e, s', calls)"
    and "is_dispatcher_error e"
    and "\<forall>u. process_state ckpt = Some u \<longrightarrow> process u \<noteq> None"
  shows "s' = s"
proof (cases "\<exists>u. process_record ckpt u")
  case False
  with assms(1,2) show ?thesis
    by (auto simp: update_runner_state_def process_record_def Let_def
             split: option.splits if_splits)
next
  case True
  then obtain u where rec: "process_record ckpt u" ..
  with assms(3) obtain q where q: "process u = Some q"
    by (auto simp: process_record_def)
  show ?thesis
  proof (cases "processes s (process u)")
    case None
    with rec q assms(1) show ?thesis
      by (simp add: process_record_unknown run_state_machine_def update_task_state_forged)
  next
    case (Some h)
    show ?thesis
    proof (cases "runs h = []")
      case True
      with rec Some assms(1,2) show ?thesis
        by (auto simp: update_runner_state_def process_record_def Let_def)
    next
      case ne: False
      show ?thesis
      proof (cases "is_terminal (last (runs h))")
        case False
        obtain res ps' cs where uts:
          "update_task_state d (last (runs h)) u recovery = (res, ps', cs)"
          by (cases "update_task_state d (last (runs h)) u recovery") auto
        with assms(1) rec Some ne False have res: "res = Inl e"
          and s': "s' = s\<lparr>processes := (processes s)
              (process u \<mapsto> h\<lparr>runs := butlast (runs h) @ [ps']\<rparr>)\<rparr>"
          by (simp_all add: process_record_known_nonterminal run_state_machine_def)
        from uts res have "ps' = last (runs h)"
          by (simp add: update_task_state_error_unchanged)
        with s' show ?thesis
          using write_back_same [OF Some ne] by simp
      next
        case True
        show ?thesis
        proof (cases "is_terminal u")
          case True
          with rec Some ne \<open>is_terminal (last (runs h))\<close> assms(1) show ?thesis
            by (simp add: process_record_terminal_terminal)
        next
          case False
          show ?thesis
          proof (cases "seq (last (runs h))")
            case None
            with rec Some ne \<open>is_terminal (last (runs h))\<close> False assms(1,2) show ?thesis
              by (auto simp: update_runner_state_def process_record_def Let_def
                    transition_to_waiting_def new_process_state_def)
          next
            case (Some n)
            have "\<not> (0 < n \<and> n + 1 \<le> n)" by simp
            then have "update_task_state d (new_process_state (Some q) (Some n))
                (waiting_run (Some q) (n + 1)) recovery
              = (Inr True, waiting_run (Some q) (n + 1),
                 run_state_dispatch d (Some WAITING) (waiting_run (Some q) (n + 1)))"
              by (rule update_task_state_forged)
            with rec \<open>processes s (process u) = Some h\<close> ne
              \<open>is_terminal (last (runs h))\<close> False Some q assms(1)
            show ?thesis
              by (simp add: process_record_terminal_fresh run_state_machine_def)
          qed
        qed
      qed
    qed
  qed
qed

lemma reachable_example: "reachable d (example_state [example_lost])"
proof -
  have s1: "update_runner_state d empty_state (process_ckpt (example_run 0 WAITING)) False
      = (Inr True, example_state [example_run 0 WAITING],
         run_state_dispatch d (Some WAITING) (example_run 0 WAITING))"
    by (simp add: eval_defs)
  have s2: "update_runner_state d (example_state [example_run 0 WAITING])
        (process_ckpt (example_forked 1)) False
      = (Inr True, example_state [example_forked 1],
         run_state_dispatch d (Some FORKED) (example_forked 1))"
    by (simp add: eval_defs)
  have s3: "update_runner_state d (example_state [example_forked 1])
        (process_ckpt (example_run 2 LOST)) False
      = (Inr True, example_state [example_lost],
         run_state_dispatch d (Some LOST) (example_run 2 LOST))"
    by (simp add: example_lost_def eval_defs)
  from reachable_empty s1 have "reachable d (example_state [example_run 0 WAITING])"
    by (rule reachable_apply)
  from this s2 have "reachable d (example_state [example_forked 1])"
    by (rule reachable_apply)
  from this s3 show ?thesis
    by (rule reachable_apply)
qed

lemma terminal_run_kept:
  assumes wf: "well_formed s" and h: "processes s p = Some h"
    and tail_terminal: "is_terminal (last (runs h))"
    and step: "update_runner_state d s ckpt recovery = (Inr applied, s', calls)"
  shows "\<exists>h'. processes s' p = Some h'
           \<and> (runs h' = runs h
              \<or> (\<exists>n. seq (last (runs h)) = Some n \<and> runs h' = runs h @ [waiting_run p (n + 1)]))"
proof (cases "\<exists>u. process_record ckpt u")
  case False
  with step have "map_option runs (processes s' p) = map_option runs (processes s p)"
    by (simp add: other_record_runs)
  with h show ?thesis by auto
next
  case True
  then obtain u where rec: "process_record ckpt u" ..
  show ?thesis
  proof (cases "process u = p")
    case False
    from process_record_step_shape [OF wf rec step] obtain q h'' where
      "process u = Some q" "s' = s\<lparr>processes := (processes s)(Some q \<mapsto> h'')\<rparr>"
      by blast
    with False h show ?thesis by auto
  next
    case True
    with h have hu: "processes s (process u) = Some h" by simp
    note tail = terminal_tail_step [OF wf rec hu tail_terminal, of d recovery]
    show ?thesis
    proof (cases "is_terminal u")
      case True
      with tail step show ?thesis by simp
    next
      case False
      with tail step True show ?thesis by auto
    qed
  qed
qed

section \<open>Terminal runs\<close>

text \<open>
  C7, as the code has it. In every state reachable by successful calls, for a history
  whose tail run is terminal: no successful call changes the runs already there (at most
  it appends one fresh run), so a terminal run never receives a second terminal state; a
  process record for that process fails with \<open>ErrorRecoveringState\<close> when its update
  is terminal; otherwise \<open>transition_to_waiting\<close> appends a fresh run and forges a WAITING
  update at the tail run's sequence number plus one, which replaces the supplied update:
  the result is \<open>True\<close>, the fresh run ends as WAITING at that sequence number, the
  handlers are called with the forged update, and the supplied update's run state,
  sequence number and other fields play no part.
\<close>

theorem terminal_tail_starts_fresh_run:
  assumes "reachable d s" and "processes s p = Some h" and "is_terminal (last (runs h))"
  shows "(\<forall>ckpt recovery applied s' calls.
            update_runner_state d s ckpt recovery = (Inr applied, s', calls) \<longrightarrow>
            (\<exists>h'. processes s' p = Some h'
               \<and> (runs h' = runs h
                  \<or> (\<exists>n. seq (last (runs h)) = Some n
                        \<and> runs h' = runs h @ [waiting_run p (n + 1)]))))
       \<and> (\<forall>ckpt u recovery. process_record ckpt u \<and> process u = p \<longrightarrow>
            (is_terminal u \<longrightarrow>
               update_runner_state d s ckpt recovery =
                 (Inl (ErrorRecoveringState (TwoConsecutiveTerminal p)), s, []))
            \<and> (\<not> is_terminal u \<longrightarrow>
                 (\<exists>n. seq (last (runs h)) = Some n
                    \<and> update_runner_state d s ckpt recovery =
                        (Inr True,
                         s\<lparr>processes := (processes s)
                             (p \<mapsto> h\<lparr>runs := runs h @ [waiting_run p (n + 1)]\<rparr>)\<rparr>,
                         run_state_dispatch d (Some WAITING) (waiting_run p (n + 1))))))"
proof -
  from assms(1) have wf: "well_formed s"
    by (rule reachable_well_formed)
  show ?thesis
  proof (intro conjI allI impI)
    fix ckpt recovery applied s' calls
    assume "update_runner_state d s ckpt recovery = (Inr applied, s', calls)"
    with wf assms(2,3) show "\<exists>h'. processes s' p = Some h'
        \<and> (runs h' = runs h
           \<or> (\<exists>n. seq (last (runs h)) = Some n \<and> runs h' = runs h @ [waiting_run p (n + 1)]))"
      by (rule terminal_run_kept)
  next
    fix ckpt u recovery
    assume a: "process_record ckpt u \<and> process u = p" and t: "is_terminal u"
    with assms(2) have "processes s (process u) = Some h" by simp
    from terminal_tail_step [OF wf conjunct1 [OF a] this assms(3), of d recovery]
    show "update_runner_state d s ckpt recovery =
        (Inl (ErrorRecoveringState (TwoConsecutiveTerminal p)), s, [])"
      using a t by simp
  next
    fix ckpt u recovery
    assume a: "process_record ckpt u \<and> process u = p" and t: "\<not> is_terminal u"
    with assms(2) have "processes s (process u) = Some h" by simp
    from terminal_tail_step [OF wf conjunct1 [OF a] this assms(3), of d recovery]
    show "\<exists>n. seq (last (runs h)) = Some n
        \<and> update_runner_state d s ckpt recovery =
            (Inr True,
             s\<lparr>processes := (processes s)(p \<mapsto> h\<lparr>runs := runs h @ [waiting_run p (n + 1)]\<rparr>)\<rparr>,
             run_state_dispatch d (Some WAITING) (waiting_run p (n + 1)))"
      using a t by simp
  qed
qed

theorem terminal_tail_starts_fresh_run_witness:
  "reachable example_dispatcher (example_state [example_lost])
   \<and> processes (example_state [example_lost]) (Some ''p'') = Some (example_history [example_lost])
   \<and> is_terminal (last (runs (example_history [example_lost])))
   \<and> process_record (process_ckpt (example_run 3 FINISHED)) (example_run 3 FINISHED)
   \<and> process (example_run 3 FINISHED) = Some ''p''
   \<and> is_terminal (example_run 3 FINISHED)
   \<and> update_runner_state example_dispatcher (example_state [example_lost])
         (process_ckpt (example_run 3 FINISHED)) False
       = (Inl (ErrorRecoveringState (TwoConsecutiveTerminal (Some ''p''))),
          example_state [example_lost], [])
   \<and> process_record (process_ckpt (example_run 9 RUNNING)) (example_run 9 RUNNING)
   \<and> \<not> is_terminal (example_run 9 RUNNING)
   \<and> update_runner_state example_dispatcher (example_state [example_lost])
         (process_ckpt (example_run 9 RUNNING)) False
       = (Inr True, example_state [example_lost, example_run 3 WAITING],
          [StateCall 1 (example_run 3 WAITING), StateCall 2 (example_run 3 WAITING)])"
proof -
  note inst = terminal_tail_starts_fresh_run
    [OF reachable_example, of "Some ''p''" "example_history [example_lost]" example_dispatcher]
  have h: "processes (example_state [example_lost]) (Some ''p'')
      = Some (example_history [example_lost])"
    by (simp add: example_state_def)
  have t: "is_terminal (last (runs (example_history [example_lost])))"
    by (simp add: example_history_def example_lost_def is_terminal_def TERMINAL_STATES_def)
  note both = conjunct2 [OF inst [OF h t]]
  have r1: "process_record (process_ckpt (example_run 3 FINISHED)) (example_run 3 FINISHED)
      \<and> process (example_run 3 FINISHED) = Some ''p''"
    by (simp add: process_record_def process_ckpt_def example_run_def new_process_state_def)
  have t1: "is_terminal (example_run 3 FINISHED)"
    by (simp add: example_run_def is_terminal_def TERMINAL_STATES_def)
  have r2: "process_record (process_ckpt (example_run 9 RUNNING)) (example_run 9 RUNNING)
      \<and> process (example_run 9 RUNNING) = Some ''p''"
    by (simp add: process_record_def process_ckpt_def example_run_def new_process_state_def)
  have t2: "\<not> is_terminal (example_run 9 RUNNING)"
    by (simp add: example_run_def is_terminal_def TERMINAL_STATES_def)
  from both r1 t1 have e1: "update_runner_state example_dispatcher (example_state [example_lost])
         (process_ckpt (example_run 3 FINISHED)) False
       = (Inl (ErrorRecoveringState (TwoConsecutiveTerminal (Some ''p''))),
          example_state [example_lost], [])"
    by blast
  from both r2 t2 obtain n where n: "seq (last (runs (example_history [example_lost]))) = Some n"
    and e2: "update_runner_state example_dispatcher (example_state [example_lost])
         (process_ckpt (example_run 9 RUNNING)) False
       = (Inr True,
          (example_state [example_lost])\<lparr>processes := (processes (example_state [example_lost]))
             (Some ''p'' \<mapsto> (example_history [example_lost])
                \<lparr>runs := runs (example_history [example_lost]) @ [waiting_run (Some ''p'') (n + 1)]\<rparr>)\<rparr>,
          run_state_dispatch example_dispatcher (Some WAITING) (waiting_run (Some ''p'') (n + 1)))"
    by blast
  from n have "n = 2"
    by (simp add: example_history_def example_lost_def)
  with e2 have e2': "update_runner_state example_dispatcher (example_state [example_lost])
         (process_ckpt (example_run 9 RUNNING)) False
       = (Inr True, example_state [example_lost, example_run 3 WAITING],
          [StateCall 1 (example_run 3 WAITING), StateCall 2 (example_run 3 WAITING)])"
    by (simp add: example_state_def example_history_def waiting_run_def example_run_def
          run_state_dispatch_def example_dispatcher_def register_port_handler_def
          register_state_handler_def register_universal_handler_def init_def empty_state_def)
  from reachable_example h t r1 t1 e1 r2 t2 e2' show ?thesis by blast
qed

text \<open>
  C7 as stated fails: after a LOST run at sequence 2, a FORKED update at sequence 4 leaves
  the fresh run WAITING at sequence 3, while the state machine run against the supplied
  update on a WAITING run at sequence 3 would leave the supplied FORKED run; and the run
  that \<open>transition_to_waiting\<close> appends carries the tail's sequence number 2 until the
  forged update is applied.
\<close>

theorem terminal_tail_supplied_update_counterexample:
  "runs_of (fst (snd (update_runner_state init (example_state [example_lost])
                        (process_ckpt (example_forked 4)) False))) (Some ''p'')
     = [example_lost, example_run 3 WAITING]
   \<and> fst (snd (update_task_state init (example_run 3 WAITING) (example_forked 4) False))
       = example_forked 4
   \<and> example_forked 4 \<noteq> example_run 3 WAITING
   \<and> seq (fst (transition_to_waiting (Some ''p'') (example_history [example_lost])
                  (seq example_lost))) = Some 2"
  by (simp add: runs_of_def example_lost_def eval_defs)

end
